theory Spec2Isabelle
  imports Complex_Main
begin

section \<open>The thermal image editor (undamaged\_to\_damaged\_convertor.py)\<close>

text \<open>
  A shallow embedding of class \<open>ThermalImageEditor\<close>. The numpy arrays live in an explicit
  store, because \<open>self.data[mask] = fill_value\<close> mutates an array in place while
  \<open>self.original_data\<close> is a second reference: whether the snapshot survives a fill is a
  question of aliasing, and the store makes \<open>.copy()\<close> visible.

  \<open>load_csv\<close> fixes no dtype: \<open>pd.read_csv(...).values\<close> is an int64 array when every
  cell of the file is an integer, a float64 array when the cells are numbers and one of them
  is not an integer, and an object array when a cell is no number. The dtype is part of the
  array, because a store into an int64 array casts the stored float. Floats are reals:
  rounding and NaN are outside the model. The calls into pandas, matplotlib and tkinter are
  not part of the repository; what the editor needs of them is a parameter of the model:
  \<^item> \<open>contains\<close> stands for \<open>Path(points).contains_points\<close>;
  \<^item> the entries typed into the \<open>askfloat\<close> dialog are an argument of \<open>fill_region\<close>;
  \<^item> what \<open>pd.read_csv\<close> returns is an argument of \<open>load_csv\<close>.
\<close>

subsection \<open>Arrays\<close>

datatype pyobj = PyStr string | PyNum real

datatype ndarray =
    Int64 "int list list"
  | Float64 "real list list"
  | Object "pyobj list list"

type_synonym addr = nat
type_synonym point = "int \<times> int"

text \<open>
  The rows of an array are a list of lists: \<open>shape0\<close> is \<open>a.shape[0]\<close> (rows), \<open>shape1\<close> is
  \<open>a.shape[1]\<close> (columns).
\<close>

definition shape0 :: "'a list list \<Rightarrow> nat" where
  "shape0 m = length m"

definition shape1 :: "'a list list \<Rightarrow> nat" where
  "shape1 m = (case m of [] \<Rightarrow> 0 | r # _ \<Rightarrow> length r)"

text \<open>A numpy array is rectangular; a list of rows need not be.\<close>

definition rectangular :: "'a list list \<Rightarrow> bool" where
  "rectangular m = (\<forall>r \<in> set m. length r = shape1 m)"

text \<open>\<open>np.any(mask)\<close> and \<open>np.sum(mask)\<close> of a boolean array.\<close>

definition np_any :: "bool list list \<Rightarrow> bool" where
  "np_any msk = (True \<in> set (concat msk))"

definition np_sum :: "bool list list \<Rightarrow> nat" where
  "np_sum msk = length (filter (\<lambda>b. b) (concat msk))"

text \<open>
  Python's \<open>int(x)\<close> of a float truncates towards zero; so does the cast of a float to
  int64 (for the values between 0 and 100 that the editor stores).
\<close>

definition py_int :: "real \<Rightarrow> int" where
  "py_int r = (if 0 \<le> r then \<lfloor>r\<rfloor> else \<lceil>r\<rceil>)"

text \<open>The cells selected by a boolean mask of the same shape are overwritten with \<open>c\<close>.\<close>

definition assign :: "'a list list \<Rightarrow> bool list list \<Rightarrow> 'a \<Rightarrow> 'a list list" where
  "assign m msk c =
     map (\<lambda>(row, mrow). map (\<lambda>(t, b). if b then c else t) (zip row mrow)) (zip m msk)"

text \<open>
  \<open>a[mask] = v\<close> for a float \<open>v\<close>: numpy casts \<open>v\<close> to the dtype of \<open>a\<close>, silently, so an int64
  array receives the truncated value.
\<close>

fun masked_assign :: "ndarray \<Rightarrow> bool list list \<Rightarrow> real \<Rightarrow> ndarray" where
  "masked_assign (Int64 m) msk v = Int64 (assign m msk (py_int v))"
| "masked_assign (Float64 m) msk v = Float64 (assign m msk v)"
| "masked_assign (Object m) msk v = Object (assign m msk (PyNum v))"

fun shape :: "ndarray \<Rightarrow> nat \<times> nat" where
  "shape (Int64 m) = (shape0 m, shape1 m)"
| "shape (Float64 m) = (shape0 m, shape1 m)"
| "shape (Object m) = (shape0 m, shape1 m)"

text \<open>
  \<open>a.min()\<close>, \<open>a.max()\<close> and their formatting with \<open>:.3f\<close> succeed on a numeric array. An
  object array read from a CSV file holds a string: the reduction or the formatting raises.
\<close>

fun numeric :: "ndarray \<Rightarrow> bool" where
  "numeric (Object m) = False"
| "numeric a = True"

subsection \<open>The editor object\<close>

text \<open>
  \<open>heap\<close> and \<open>brk\<close> are the store of arrays and its next free address. \<open>plotted\<close> says that
  \<open>setup_plot\<close> has run, so that \<open>self.fig\<close>, \<open>self.ax\<close> and \<open>self.im\<close> are set: the
  rendering calls raise AttributeError on \<open>None\<close> otherwise. \<open>polygon\<close> keeps the vertices
  of the matplotlib patch. \<open>self.points.copy()\<close> and \<open>self.points = []\<close> make fresh lists,
  so the point lists are values.
\<close>

record editor =
  heap :: "addr \<Rightarrow> ndarray option"
  brk :: addr
  data :: "addr option"
  original_data :: "addr option"
  plotted :: bool
  points :: "point list"
  drawing :: bool
  polygon :: "point list option"
  current_selection :: "point list option"

definition editor_init :: editor where
  "editor_init = \<lparr>heap = (\<lambda>_. None), brk = 0, data = None, original_data = None,
     plotted = False, points = [], drawing = False, polygon = None,
     current_selection = None\<rparr>"

text \<open>
  What a handler does besides changing the editor: it returns silently (\<open>Done\<close>), reports a
  fill (the printed value and \<open>np.sum(mask)\<close>, the count of modified pixels), shows a message
  box, or lets an exception escape (\<open>Uncaught\<close>).
\<close>

datatype outcome = Done | Filled real nat | Warning string | Error string | Info string
  | Uncaught

subsection \<open>Loading and plotting\<close>

datatype read_result = NoPath | ReadError | Frame ndarray

text \<open>
  \<open>load_csv\<close>: \<open>NoPath\<close> is an empty path from the file dialog, \<open>ReadError\<close> an exception
  of \<open>pd.read_csv\<close> (caught, message box), \<open>Frame a\<close> the values read. The snapshot is
  \<open>self.data.copy()\<close>: a second array. Both fields are assigned before the temperature range
  is printed; on an object array that print raises inside the \<open>try\<close>, so the method shows the
  message box and returns \<open>False\<close> with the new arrays in place. The third component is the
  returned boolean.
\<close>

definition load_csv :: "read_result \<Rightarrow> editor \<Rightarrow> editor \<times> outcome \<times> bool" where
  "load_csv r s =
     (case r of
        NoPath \<Rightarrow> (s, Done, False)
      | ReadError \<Rightarrow> (s, Error ''Failed to load CSV file'', False)
      | Frame a \<Rightarrow>
          (let d = brk s;
               s1 = s\<lparr>heap := (heap s)(d \<mapsto> a), brk := Suc d, data := Some d\<rparr>;
               og = brk s1;
               s2 = s1\<lparr>heap := (heap s1)(og \<mapsto> a), brk := Suc og, original_data := Some og\<rparr>
           in if numeric a then (s2, Done, True)
              else (s2, Error ''Failed to load CSV file'', False)))"

text \<open>\<open>setup_plot\<close> creates figure, axes and image; \<open>run\<close> calls it after a successful load only.\<close>

definition setup_plot :: "editor \<Rightarrow> editor" where
  "setup_plot s = s\<lparr>plotted := True\<rparr>"

definition run :: "read_result \<Rightarrow> editor \<Rightarrow> editor" where
  "run r s = (case load_csv r s of (s1, _, ok) \<Rightarrow> if ok then setup_plot s1 else s1)"

text \<open>
  \<open>refresh_display\<close> changes no field of the model; it returns normally exactly when the
  image exists and the data is a numeric array (\<open>self.im.set_array\<close>, \<open>self.data.min()\<close>).
\<close>

definition refresh_display :: "editor \<Rightarrow> bool" where
  "refresh_display s =
     (plotted s \<and>
      (case data s of
         None \<Rightarrow> False
       | Some d \<Rightarrow> (case heap s d of None \<Rightarrow> False | Some a \<Rightarrow> numeric a)))"

subsection \<open>Selection\<close>

text \<open>
  \<open>on_click inaxes button xdata ydata\<close>: \<open>inaxes\<close> is \<open>event.inaxes == self.ax\<close>. The point
  is appended before the first drawing call.
\<close>

definition on_click :: "bool \<Rightarrow> nat \<Rightarrow> real \<Rightarrow> real \<Rightarrow> editor \<Rightarrow> editor \<times> outcome" where
  "on_click inaxes button xdata ydata s =
     (if \<not> inaxes then (s, Done)
      else if button = 1 then
        (let x = py_int xdata; y = py_int ydata in
         case data s of
           None \<Rightarrow> (s, Uncaught)
         | Some d \<Rightarrow>
             (case heap s d of
                None \<Rightarrow> (s, Uncaught)
              | Some a \<Rightarrow>
                  if 0 \<le> x \<and> x < int (snd (shape a)) \<and> 0 \<le> y \<and> y < int (fst (shape a)) then
                    (let s1 = s\<lparr>points := points s @ [(x, y)]\<rparr>
                     in if plotted s then (s1, Done) else (s1, Uncaught))
                  else (s, Done)))
      else (s, Done))"

definition close_region :: "editor \<Rightarrow> editor \<times> outcome" where
  "close_region s =
     (if length (points s) < 3 then
        (s, Warning ''Need at least 3 points to create a region'')
      else if \<not> plotted s then (s, Uncaught)
      else (s\<lparr>polygon := Some (points s), current_selection := Some (points s)\<rparr>, Done))"

definition cancel_selection :: "editor \<Rightarrow> editor \<times> outcome" where
  "cancel_selection s =
     (let s1 = s\<lparr>points := [], polygon := None, current_selection := None\<rparr>
      in (s1, if refresh_display s1 then Done else Uncaught))"

definition on_key_press :: "string \<Rightarrow> editor \<Rightarrow> editor \<times> outcome" where
  "on_key_press key s =
     (if key = ''enter'' \<and> 3 \<le> length (points s) then close_region s
      else if key = ''escape'' then cancel_selection s
      else (s, Done))"

subsection \<open>Filling\<close>

text \<open>
  \<open>create_polygon_mask\<close>: the grid of \<open>np.mgrid\<close> holds the pixel \<open>(x, y)\<close> at row \<open>y\<close>,
  column \<open>x\<close>; \<open>contains pts (x, y)\<close> is matplotlib's answer for that pixel.
\<close>

definition create_polygon_mask ::
    "(point list \<Rightarrow> point \<Rightarrow> bool) \<Rightarrow> point list \<Rightarrow> ndarray \<Rightarrow> bool list list" where
  "create_polygon_mask contains pts a =
     map (\<lambda>y. map (\<lambda>x. contains pts (int x, int y)) [0..<snd (shape a)]) [0..<fst (shape a)]"

text \<open>
  The dialog \<open>simpledialog.askfloat(..., minvalue, maxvalue)\<close> of tkinter stays open until
  an entry parses as a float that is neither below \<open>minvalue\<close> nor above \<open>maxvalue\<close>, or
  until it is cancelled; then it returns \<open>None\<close>.
\<close>

datatype entry = Typed real | Unparsable | CancelDialog

fun askfloat :: "real \<Rightarrow> real \<Rightarrow> entry list \<Rightarrow> real option" where
  "askfloat lo hi [] = None"
| "askfloat lo hi (CancelDialog # es) = None"
| "askfloat lo hi (Unparsable # es) = askfloat lo hi es"
| "askfloat lo hi (Typed v # es) = (if v < lo \<or> v > hi then askfloat lo hi es else Some v)"

text \<open>
  \<open>fill_region\<close>. Everything after the first guard runs inside \<open>try\<close>: an exception becomes
  the message box \<open>Failed to fill region\<close>. The statistics of the region (mean, min, max) are
  only shown in the dialog and printed; their values are left out, but the dialog text also
  formats \<open>self.data.min()\<close>, which raises on an object array before the dialog opens.
  \<open>Filled v n\<close> carries what is printed: the value typed and \<open>np.sum(mask)\<close>.
\<close>

definition fill_region ::
    "(point list \<Rightarrow> point \<Rightarrow> bool) \<Rightarrow> entry list \<Rightarrow> editor \<Rightarrow> editor \<times> outcome" where
  "fill_region contains entries s =
     (case current_selection s of
        None \<Rightarrow> (s, Warning ''Please select a region first'')
      | Some sel \<Rightarrow>
          if sel = [] then (s, Warning ''Please select a region first'')
          else
            (case data s of
               None \<Rightarrow> (s, Error ''Failed to fill region'')
             | Some d \<Rightarrow>
                 (case heap s d of
                    None \<Rightarrow> (s, Error ''Failed to fill region'')
                  | Some a \<Rightarrow>
                      (let msk = create_polygon_mask contains sel a in
                       if \<not> np_any msk then (s, Warning ''Selected region is empty'')
                       else if \<not> numeric a then (s, Error ''Failed to fill region'')
                       else
                         (case askfloat 0 100 entries of
                            None \<Rightarrow> (s, Done)
                          | Some v \<Rightarrow>
                              (let s1 = s\<lparr>heap := (heap s)(d \<mapsto> masked_assign a msk v)\<rparr>
                               in if \<not> refresh_display s1
                                  then (s1, Error ''Failed to fill region'')
                                  else
                                    (case cancel_selection s1 of
                                       (s2, r) \<Rightarrow>
                                         if r = Done then (s2, Filled v (np_sum msk))
                                         else (s2, Error ''Failed to fill region''))))))))"

subsection \<open>Reset, undo, save, load\<close>

definition reset_image :: "editor \<Rightarrow> editor \<times> outcome" where
  "reset_image s =
     (case original_data s of
        None \<Rightarrow> (s, Done)
      | Some og \<Rightarrow>
          (case heap s og of
             None \<Rightarrow> (s, Uncaught)
           | Some a \<Rightarrow>
               (let d = brk s;
                    s1 = s\<lparr>heap := (heap s)(d \<mapsto> a), brk := Suc d, data := Some d\<rparr>
                in case cancel_selection s1 of
                     (s2, r) \<Rightarrow>
                       if r \<noteq> Done then (s2, Uncaught)
                       else if refresh_display s2 then (s2, Done) else (s2, Uncaught))))"

definition undo_last_action :: "editor \<Rightarrow> editor \<times> outcome" where
  "undo_last_action s = reset_image s"

datatype save_result = NoSavePath | WriteError | Written

definition save_csv :: "save_result \<Rightarrow> editor \<Rightarrow> editor \<times> outcome" where
  "save_csv r s =
     (case r of
        NoSavePath \<Rightarrow> (s, Done)
      | WriteError \<Rightarrow> (s, Error ''Failed to save file'')
      | Written \<Rightarrow> (s, Info ''File saved successfully''))"

definition load_new_csv :: "read_result \<Rightarrow> editor \<Rightarrow> editor \<times> outcome" where
  "load_new_csv r s =
     (case load_csv r s of
        (s1, out, ok) \<Rightarrow>
          if ok then
            (case cancel_selection s1 of
               (s2, r2) \<Rightarrow>
                 if r2 \<noteq> Done then (s2, Uncaught)
                 else if refresh_display s2 then (s2, Done) else (s2, Uncaught))
          else (s1, out))"

subsection \<open>The event loop\<close>

text \<open>The callbacks connected in \<open>setup_plot\<close>, one constructor each.\<close>

datatype event =
    Click bool nat real real
  | Key string
  | BtnReset
  | BtnFill "entry list"
  | BtnSave save_result
  | BtnLoad read_result
  | BtnUndo

fun handle :: "(point list \<Rightarrow> point \<Rightarrow> bool) \<Rightarrow> event \<Rightarrow> editor \<Rightarrow> editor \<times> outcome" where
  "handle contains (Click inaxes button xdata ydata) s = on_click inaxes button xdata ydata s"
| "handle contains (Key k) s = on_key_press k s"
| "handle contains BtnReset s = reset_image s"
| "handle contains (BtnFill entries) s = fill_region contains entries s"
| "handle contains (BtnSave r) s = save_csv r s"
| "handle contains (BtnLoad r) s = load_new_csv r s"
| "handle contains BtnUndo s = undo_last_action s"

fun run_events :: "(point list \<Rightarrow> point \<Rightarrow> bool) \<Rightarrow> event list \<Rightarrow> editor \<Rightarrow> editor" where
  "run_events contains [] s = s"
| "run_events contains (e # es) s = run_events contains es (fst (handle contains e s))"

text \<open>A session: \<open>run\<close> loads the file and sets up the plot, then the events arrive.\<close>

definition session :: "(point list \<Rightarrow> point \<Rightarrow> bool) \<Rightarrow> ndarray \<Rightarrow> event list \<Rightarrow> editor" where
  "session contains a es = run_events contains es (run (Frame a) editor_init)"

fun is_load :: "event \<Rightarrow> bool" where
  "is_load (BtnLoad r) = True"
| "is_load e = False"

text \<open>A run of left clicks inside the axes, each at \<open>(xdata, ydata)\<close>.\<close>

fun add_points :: "(real \<times> real) list \<Rightarrow> editor \<Rightarrow> editor" where
  "add_points [] s = s"
| "add_points ((xdata, ydata) # cs) s = add_points cs (fst (on_click True 1 xdata ydata s))"

subsection \<open>Observations and invariants\<close>

text \<open>The selection: the points clicked, the patch drawn and the committed polygon.\<close>

definition selection_state :: "editor \<Rightarrow> point list \<times> point list option \<times> point list option" where
  "selection_state s = (points s, polygon s, current_selection s)"

text \<open>\<open>self.data.shape\<close>, when there is an array.\<close>

definition grid_shape :: "editor \<Rightarrow> (nat \<times> nat) option" where
  "grid_shape s =
     (case data s of
        None \<Rightarrow> None
      | Some d \<Rightarrow> (case heap s d of None \<Rightarrow> None | Some a \<Rightarrow> Some (shape a)))"

text \<open>The array that \<open>self.data\<close> refers to.\<close>

definition working_array :: "editor \<Rightarrow> ndarray option" where
  "working_array s = (case data s of None \<Rightarrow> None | Some d \<Rightarrow> heap s d)"

text \<open>
  The editor is running on a numeric snapshot \<open>a\<close> stored at \<open>og\<close>: the plot exists, the
  working array is numeric and is another array of the store than the snapshot.
\<close>

definition snapshot_inv :: "addr \<Rightarrow> ndarray \<Rightarrow> editor \<Rightarrow> bool" where
  "snapshot_inv og a s =
     (plotted s \<and> numeric a \<and> original_data s = Some og \<and> heap s og = Some a \<and> og < brk s \<and>
      (case data s of
         None \<Rightarrow> False
       | Some d \<Rightarrow>
           d \<noteq> og \<and> d < brk s \<and>
           (case heap s d of None \<Rightarrow> False | Some b \<Rightarrow> numeric b)))"

text \<open>Cell by cell, \<open>md\<close> holds the value of \<open>m\<close> or a value between 0 and 100.\<close>

definition cells_original_or_prompted ::
    "'a::linordered_idom list list \<Rightarrow> 'a list list \<Rightarrow> bool" where
  "cells_original_or_prompted md m =
     list_all2 (list_all2 (\<lambda>c c0. c = c0 \<or> (0 \<le> c \<and> c \<le> 100))) md m"

fun original_or_prompted :: "ndarray \<Rightarrow> ndarray \<Rightarrow> bool" where
  "original_or_prompted (Int64 md) (Int64 m) = cells_original_or_prompted md m"
| "original_or_prompted (Float64 md) (Float64 m) = cells_original_or_prompted md m"
| "original_or_prompted b a = False"

text \<open>The running editor whose working array is, cell by cell, the snapshot or prompted.\<close>

definition range_inv :: "addr \<Rightarrow> ndarray \<Rightarrow> editor \<Rightarrow> bool" where
  "range_inv og a s =
     (snapshot_inv og a s \<and>
      (case working_array s of None \<Rightarrow> False | Some b \<Rightarrow> original_or_prompted b a))"

fun rectangular_array :: "ndarray \<Rightarrow> bool" where
  "rectangular_array (Int64 m) = rectangular m"
| "rectangular_array (Float64 m) = rectangular m"
| "rectangular_array (Object m) = rectangular m"

subsection \<open>Example sessions\<close>

text \<open>
  Two 3 by 3 images, as \<open>read_csv\<close> returns them for a file with a decimal cell and for a file
  of integers. In the example session the user clicks the triangle \<open>(0,0), (2,0), (0,2)\<close> and
  presses Enter. \<open>demo_contains\<close> answers for that triangle with the three pixels \<open>(0,1)\<close>,
  \<open>(1,1)\<close> and \<open>(0,2)\<close>, the mask that \<open>Path.contains_points\<close> computes for it on this grid.
  In the second session the three clicks lie on one line, a polygon without area, and
  \<open>nothing_inside\<close> is the rasteriser that finds no pixel inside it.
\<close>

definition float_image :: ndarray where
  "float_image = Float64 [[20.5, 21, 22], [23, 24, 25], [26, 27, 28]]"

definition int_image :: ndarray where
  "int_image = Int64 [[20, 21, 22], [23, 24, 25], [26, 27, 28]]"

definition demo_triangle :: "point list" where
  "demo_triangle = [(0, 0), (2, 0), (0, 2)]"

definition triangle_clicks :: "event list" where
  "triangle_clicks = [Click True 1 0 0, Click True 1 2 0, Click True 1 0 2, Key ''enter'']"

definition demo_contains :: "point list \<Rightarrow> point \<Rightarrow> bool" where
  "demo_contains pts p = (pts = demo_triangle \<and> (p = (0, 1) \<or> p = (1, 1) \<or> p = (0, 2)))"

definition nothing_inside :: "point list \<Rightarrow> point \<Rightarrow> bool" where
  "nothing_inside pts p = False"

definition flat_line :: "point list" where
  "flat_line = [(0, 0), (1, 0), (2, 0)]"

definition flat_clicks :: "event list" where
  "flat_clicks = [Click True 1 0 0, Click True 1 1 0, Click True 1 2 0, Key ''enter'']"

definition flat_editor :: editor where
  "flat_editor = run_events nothing_inside flat_clicks (run (Frame float_image) editor_init)"

definition demo_editor :: "ndarray \<Rightarrow> editor" where
  "demo_editor a = run_events demo_contains triangle_clicks (run (Frame a) editor_init)"

text \<open>The state that \<open>demo_editor a\<close> reaches for a numeric 3 by 3 image \<open>a\<close>.\<close>

definition closed_triangle_on :: "ndarray \<Rightarrow> editor" where
  "closed_triangle_on a = \<lparr>heap = [0 \<mapsto> a, 1 \<mapsto> a], brk = 2, data = Some 0,
     original_data = Some 1, plotted = True, points = demo_triangle, drawing = False,
     polygon = Some demo_triangle, current_selection = Some demo_triangle\<rparr>"

section \<open>Properties\<close>

subsection \<open>Undo\<close>

text \<open>
  C9. Undo is reset: for every editor state, \<open>undo_last_action\<close> gives the state and the
  outcome that \<open>reset_image\<close> gives; there is no stack of earlier states.
\<close>

theorem undo_is_reset: "undo_last_action s = reset_image s"
  by (simp add: undo_last_action_def)

subsection \<open>Evaluating the example sessions\<close>

lemma py_int_of_int [simp]: "py_int (of_int k) = k"
  by (simp add: py_int_def)

lemma py_int_simps [simp]: "py_int 0 = 0" "py_int 1 = 1" "py_int (numeral n) = numeral n"
  using py_int_of_int [of 0] py_int_of_int [of 1] py_int_of_int [of "numeral n"]
  by simp_all

lemma run_frame:
  "numeric a \<Longrightarrow> run (Frame a) editor_init =
     \<lparr>heap = [0 \<mapsto> a, 1 \<mapsto> a], brk = 2, data = Some 0, original_data = Some 1,
      plotted = True, points = [], drawing = False, polygon = None,
      current_selection = None\<rparr>"
  by (simp add: run_def load_csv_def setup_plot_def editor_init_def Let_def numeral_2_eq_2)

lemma on_click_left:
  assumes "data s = Some d" and "heap s d = Some a"
  shows "on_click True 1 xdata ydata s =
     (if 0 \<le> py_int xdata \<and> py_int xdata < int (snd (shape a))
         \<and> 0 \<le> py_int ydata \<and> py_int ydata < int (fst (shape a))
      then (s\<lparr>points := points s @ [(py_int xdata, py_int ydata)]\<rparr>,
            if plotted s then Done else Uncaught)
      else (s, Done))"
  using assms by (simp add: on_click_def Let_def)

lemma demo_editor_eq:
  assumes "numeric a" and "shape a = (3, 3)"
  shows "demo_editor a = closed_triangle_on a"
proof -
  let ?s0 = "run (Frame a) editor_init"
  have d0: "data ?s0 = Some 0" "heap ?s0 0 = Some a" "points ?s0 = []" "plotted ?s0"
    by (simp_all add: run_frame [OF assms(1)])
  have c1: "fst (on_click True 1 0 0 ?s0) = ?s0\<lparr>points := [(0, 0)]\<rparr>"
    using on_click_left [OF d0(1,2), of 0 0] by (simp add: assms(2) d0)
  let ?s1 = "?s0\<lparr>points := [(0, 0)]\<rparr>"
  have d1: "data ?s1 = Some 0" "heap ?s1 0 = Some a"
    by (simp_all add: d0)
  have c2: "fst (on_click True 1 2 0 ?s1) = ?s0\<lparr>points := [(0, 0), (2, 0)]\<rparr>"
    using on_click_left [OF d1, of 2 0] by (simp add: assms(2) d0)
  let ?s2 = "?s0\<lparr>points := [(0, 0), (2, 0)]\<rparr>"
  have d2: "data ?s2 = Some 0" "heap ?s2 0 = Some a"
    by (simp_all add: d0)
  have c3: "fst (on_click True 1 0 2 ?s2) = ?s0\<lparr>points := demo_triangle\<rparr>"
    using on_click_left [OF d2, of 0 2] by (simp add: assms(2) d0 demo_triangle_def)
  let ?s3 = "?s0\<lparr>points := demo_triangle\<rparr>"
  have c4: "fst (on_key_press ''enter'' ?s3) = closed_triangle_on a"
    by (simp add: on_key_press_def close_region_def closed_triangle_on_def
        run_frame [OF assms(1)] demo_triangle_def)
  show ?thesis
    unfolding demo_editor_def triangle_clicks_def
    by (simp only: run_events.simps handle.simps c1 c2 c3 c4)
qed

lemma demo_images: "numeric float_image" "shape float_image = (3, 3)"
  "numeric int_image" "shape int_image = (3, 3)"
  by (simp_all add: float_image_def int_image_def shape0_def shape1_def)

lemma demo_mask:
  assumes "shape a = (3, 3)"
  shows "create_polygon_mask demo_contains demo_triangle a
     = [[False, False, False], [True, True, False], [True, False, False]]"
  by (simp add: create_polygon_mask_def assms demo_contains_def upt_rec)

lemma closed_triangle_fields:
  "data (closed_triangle_on a) = Some 0" "heap (closed_triangle_on a) 0 = Some a"
  "original_data (closed_triangle_on a) = Some 1" "heap (closed_triangle_on a) 1 = Some a"
  "plotted (closed_triangle_on a)" "brk (closed_triangle_on a) = 2"
  "points (closed_triangle_on a) = demo_triangle"
  "polygon (closed_triangle_on a) = Some demo_triangle"
  "current_selection (closed_triangle_on a) = Some demo_triangle"
  by (simp_all add: closed_triangle_on_def)

lemma demo_triangle_nonempty: "demo_triangle \<noteq> []"
  by (simp add: demo_triangle_def)

lemma fill_region_fills:
  assumes "current_selection s = Some sel" and "sel \<noteq> []"
    and "data s = Some d" and "heap s d = Some a" and "numeric a" and "plotted s"
    and "create_polygon_mask contains sel a = msk" and "np_any msk"
    and "askfloat 0 100 entries = Some v"
  shows "fill_region contains entries s =
     (s\<lparr>heap := (heap s)(d \<mapsto> masked_assign a msk v), points := [], polygon := None,
         current_selection := None\<rparr>, Filled v (np_sum msk))"
proof -
  have num: "numeric (masked_assign a msk v)"
    using assms(5) by (cases a) simp_all
  show ?thesis
    using assms num
    by (simp add: fill_region_def refresh_display_def cancel_selection_def Let_def)
qed

subsection \<open>Filling\<close>

text \<open>
  C1 asks that after a fill every pixel under the mask equals the fill value \<open>V\<close>. On an
  image whose file holds integers only the array is int64 and the store truncates: in the
  example session the user enters 42.5, the editor prints that the region was filled with
  42.5 and that 3 pixels were modified, and the three pixels hold 42.
\<close>

theorem fill_region_truncates_on_int64_image:
  "snd (fill_region demo_contains [Typed 42.5] (demo_editor int_image)) = Filled 42.5 3
   \<and> working_array (fst (fill_region demo_contains [Typed 42.5] (demo_editor int_image)))
       = Some (Int64 [[20, 21, 22], [42, 42, 25], [42, 27, 28]])"
proof -
  let ?s = "closed_triangle_on int_image"
  let ?msk = "[[False, False, False], [True, True, False], [True, False, False]]"
  have s: "demo_editor int_image = ?s"
    by (rule demo_editor_eq) (rule demo_images)+
  have msk: "create_polygon_mask demo_contains demo_triangle int_image = ?msk"
    by (rule demo_mask) (rule demo_images)
  have any: "np_any ?msk" by (simp add: np_any_def)
  have ask: "askfloat 0 100 [Typed 42.5] = Some 42.5" by simp
  have run: "fill_region demo_contains [Typed 42.5] ?s =
     (?s\<lparr>heap := (heap ?s)(0 \<mapsto> masked_assign int_image ?msk 42.5), points := [],
          polygon := None, current_selection := None\<rparr>, Filled 42.5 (np_sum ?msk))"
    by (rule fill_region_fills [OF closed_triangle_fields(9) demo_triangle_nonempty
          closed_triangle_fields(1,2) demo_images(3) closed_triangle_fields(5) msk any ask])
  have cnt: "np_sum ?msk = 3" by (simp add: np_sum_def)
  have cells: "masked_assign int_image ?msk 42.5 = Int64 [[20, 21, 22], [42, 42, 25], [42, 27, 28]]"
    by (simp add: int_image_def assign_def py_int_def)
  show ?thesis
    unfolding s run cnt cells by (simp add: working_array_def closed_triangle_fields)
qed

lemma float_session: "demo_editor float_image = closed_triangle_on float_image"
  by (rule demo_editor_eq) (rule demo_images)+

subsection \<open>Closing a selection\<close>

text \<open>
  C4. With fewer than 3 points \<open>close_region\<close> shows the warning that at least 3 points are
  needed and leaves the whole editor, matrix and point list included, as it was. In a running
  editor it succeeds exactly when there are at least 3 points, and then commits the points as
  the polygon and the current selection. The Enter key reaches \<open>close_region\<close> only with at
  least 3 points; with fewer it does nothing.
\<close>

theorem close_region_needs_three_points:
  "(length (points s) < 3 \<longrightarrow>
      close_region s = (s, Warning ''Need at least 3 points to create a region''))
   \<and> (plotted s \<longrightarrow> (snd (close_region s) = Done) = (3 \<le> length (points s)))
   \<and> (plotted s \<and> 3 \<le> length (points s) \<longrightarrow>
      close_region s =
        (s\<lparr>polygon := Some (points s), current_selection := Some (points s)\<rparr>, Done))
   \<and> on_key_press ''enter'' s = (if 3 \<le> length (points s) then close_region s else (s, Done))"
  by (auto simp: close_region_def on_key_press_def)

theorem close_region_needs_three_points_witness:
  "length (points (add_points [(0, 0), (2, 0)] (run (Frame float_image) editor_init))) < 3
   \<and> close_region (add_points [(0, 0), (2, 0)] (run (Frame float_image) editor_init))
       = (add_points [(0, 0), (2, 0)] (run (Frame float_image) editor_init),
          Warning ''Need at least 3 points to create a region'')
   \<and> plotted (add_points [(0, 0), (2, 0), (0, 2)] (run (Frame float_image) editor_init))
   \<and> 3 \<le> length (points (add_points [(0, 0), (2, 0), (0, 2)]
         (run (Frame float_image) editor_init)))
   \<and> close_region (add_points [(0, 0), (2, 0), (0, 2)] (run (Frame float_image) editor_init))
       = (closed_triangle_on float_image, Done)"
proof -
  let ?s0 = "run (Frame float_image) editor_init"
  have d0: "data ?s0 = Some 0" "heap ?s0 0 = Some float_image" "points ?s0 = []" "plotted ?s0"
    by (simp_all add: run_frame [OF demo_images(1)])
  have c1: "fst (on_click True 1 0 0 ?s0) = ?s0\<lparr>points := [(0, 0)]\<rparr>"
    using on_click_left [OF d0(1,2), of 0 0] by (simp add: demo_images d0)
  let ?s1 = "?s0\<lparr>points := [(0, 0)]\<rparr>"
  have d1: "data ?s1 = Some 0" "heap ?s1 0 = Some float_image"
    by (simp_all add: d0)
  have c2: "fst (on_click True 1 2 0 ?s1) = ?s0\<lparr>points := [(0, 0), (2, 0)]\<rparr>"
    using on_click_left [OF d1, of 2 0] by (simp add: demo_images d0)
  let ?s2 = "?s0\<lparr>points := [(0, 0), (2, 0)]\<rparr>"
  have d2: "data ?s2 = Some 0" "heap ?s2 0 = Some float_image"
    by (simp_all add: d0)
  have c3: "fst (on_click True 1 0 2 ?s2) = ?s0\<lparr>points := demo_triangle\<rparr>"
    using on_click_left [OF d2, of 0 2] by (simp add: demo_images d0 demo_triangle_def)
  let ?s3 = "?s0\<lparr>points := demo_triangle\<rparr>"
  have two: "add_points [(0, 0), (2, 0)] ?s0 = ?s2"
    by (simp only: add_points.simps c1 c2)
  have three: "add_points [(0, 0), (2, 0), (0, 2)] ?s0 = ?s3"
    by (simp only: add_points.simps c1 c2 c3)
  have short: "length (points ?s2) < 3" by simp
  have long: "3 \<le> length (points ?s3)" by (simp add: demo_triangle_def)
  have p: "plotted ?s3" by (simp add: d0)
  have w: "close_region ?s2 = (?s2, Warning ''Need at least 3 points to create a region'')"
    using close_region_needs_three_points [of ?s2] short by blast
  have "close_region ?s3
      = (?s3\<lparr>polygon := Some (points ?s3), current_selection := Some (points ?s3)\<rparr>, Done)"
    using close_region_needs_three_points [of ?s3] long p by blast
  then have c: "close_region ?s3 = (closed_triangle_on float_image, Done)"
    by (simp add: closed_triangle_on_def run_frame [OF demo_images(1)])
  show ?thesis
    unfolding two three using short long p w c by (intro conjI)
qed

lemma flat_editor_eq:
  "flat_editor = (closed_triangle_on float_image)\<lparr>points := flat_line,
      polygon := Some flat_line, current_selection := Some flat_line\<rparr>"
proof -
  let ?r = "run (Frame float_image) editor_init"
  have d0: "data ?r = Some 0" "heap ?r 0 = Some float_image" "points ?r = []" "plotted ?r"
    by (simp_all add: run_frame [OF demo_images(1)])
  have c1: "fst (on_click True 1 0 0 ?r) = ?r\<lparr>points := [(0, 0)]\<rparr>"
    using on_click_left [OF d0(1,2), of 0 0] by (simp add: demo_images d0)
  let ?r1 = "?r\<lparr>points := [(0, 0)]\<rparr>"
  have d1: "data ?r1 = Some 0" "heap ?r1 0 = Some float_image"
    by (simp_all add: d0)
  have c2: "fst (on_click True 1 1 0 ?r1) = ?r\<lparr>points := [(0, 0), (1, 0)]\<rparr>"
    using on_click_left [OF d1, of 1 0] by (simp add: demo_images d0)
  let ?r2 = "?r\<lparr>points := [(0, 0), (1, 0)]\<rparr>"
  have d2: "data ?r2 = Some 0" "heap ?r2 0 = Some float_image"
    by (simp_all add: d0)
  have c3: "fst (on_click True 1 2 0 ?r2) = ?r\<lparr>points := flat_line\<rparr>"
    using on_click_left [OF d2, of 2 0] by (simp add: demo_images d0 flat_line_def)
  let ?r3 = "?r\<lparr>points := flat_line\<rparr>"
  have c4: "fst (on_key_press ''enter'' ?r3) = (closed_triangle_on float_image)\<lparr>points := flat_line,
      polygon := Some flat_line, current_selection := Some flat_line\<rparr>"
    by (simp add: on_key_press_def close_region_def closed_triangle_on_def
        run_frame [OF demo_images(1)] flat_line_def)
  show ?thesis
    unfolding flat_editor_def flat_clicks_def
    by (simp only: run_events.simps handle.simps c1 c2 c3 c4)
qed

text \<open>
  C5. When the mask of the committed selection has no true entry, \<open>fill_region\<close> shows the
  warning that the selected region is empty and returns the editor unchanged: no pixel of the
  matrix is written and the selection stays.
\<close>

theorem fill_region_empty_mask_is_noop:
  assumes "current_selection s = Some sel" and "sel \<noteq> []"
    and "data s = Some d" and "heap s d = Some a"
    and "\<not> np_any (create_polygon_mask contains sel a)"
  shows "fill_region contains entries s = (s, Warning ''Selected region is empty'')"
  using assms by (simp add: fill_region_def)

theorem fill_region_empty_mask_is_noop_witness:
  "current_selection flat_editor = Some flat_line \<and> flat_line \<noteq> []
   \<and> data flat_editor = Some 0 \<and> heap flat_editor 0 = Some float_image
   \<and> \<not> np_any (create_polygon_mask nothing_inside flat_line float_image)
   \<and> fill_region nothing_inside [Typed 50] flat_editor
       = (flat_editor, Warning ''Selected region is empty'')"
proof -
  have h1: "current_selection flat_editor = Some flat_line"
    by (simp add: flat_editor_eq)
  have h2: "flat_line \<noteq> []" by (simp add: flat_line_def)
  have h3: "data flat_editor = Some 0" by (simp add: flat_editor_eq closed_triangle_fields)
  have h4: "heap flat_editor 0 = Some float_image"
    by (simp add: flat_editor_eq closed_triangle_fields)
  have h5: "\<not> np_any (create_polygon_mask nothing_inside flat_line float_image)"
    by (simp add: np_any_def create_polygon_mask_def nothing_inside_def)
  show ?thesis
    using fill_region_empty_mask_is_noop [OF h1 h2 h3 h4 h5, of "[Typed 50]"] h1 h2 h3 h4 h5
    by (intro conjI)
qed

subsection \<open>Reset\<close>

text \<open>
  C6 expects the signal \<open>NoOriginalLoaded\<close> from a reset before any load. On the freshly
  constructed editor, which has no snapshot, \<open>reset_image\<close> returns normally: it shows no
  message box, raises nothing and changes nothing.
\<close>

theorem reset_image_without_snapshot_is_silent:
  "original_data editor_init = None \<and> reset_image editor_init = (editor_init, Done)"
  by (simp add: reset_image_def editor_init_def)

text \<open>
  C6, as the code has it. Without a snapshot \<open>reset_image\<close> is a silent no-op: it returns
  normally and leaves the editor unchanged. With a snapshot, in a running editor whose snapshot
  is a numeric array, it succeeds: the working array is a fresh copy of the snapshot and the
  selection is cleared.
\<close>

theorem reset_image_outcomes:
  "(original_data s = None \<longrightarrow> reset_image s = (s, Done))
   \<and> (plotted s \<and> original_data s = Some og \<and> heap s og = Some a \<and> numeric a \<longrightarrow>
        reset_image s =
          (s\<lparr>heap := (heap s)(brk s \<mapsto> a), brk := Suc (brk s), data := Some (brk s),
              points := [], polygon := None, current_selection := None\<rparr>, Done))"
  by (simp add: reset_image_def cancel_selection_def refresh_display_def Let_def)

theorem reset_image_outcomes_witness:
  "original_data editor_init = None \<and> reset_image editor_init = (editor_init, Done)
   \<and> plotted (demo_editor float_image) \<and> original_data (demo_editor float_image) = Some 1
   \<and> heap (demo_editor float_image) 1 = Some float_image \<and> numeric float_image
   \<and> snd (reset_image (demo_editor float_image)) = Done
   \<and> working_array (fst (reset_image (demo_editor float_image))) = Some float_image
   \<and> selection_state (fst (reset_image (demo_editor float_image))) = ([], None, None)"
proof -
  let ?s = "demo_editor float_image"
  have h0: "original_data editor_init = None" by (simp add: editor_init_def)
  have h1: "plotted ?s" by (simp add: float_session closed_triangle_fields)
  have h2: "original_data ?s = Some 1"
    unfolding float_session by (rule closed_triangle_fields)
  have h3: "heap ?s 1 = Some float_image"
    unfolding float_session by (rule closed_triangle_fields)
  have h4: "numeric float_image" by (rule demo_images)
  have a: "reset_image editor_init = (editor_init, Done)"
    using reset_image_outcomes [of editor_init] h0 by blast
  have b: "reset_image ?s =
      (?s\<lparr>heap := (heap ?s)(brk ?s \<mapsto> float_image), brk := Suc (brk ?s),
          data := Some (brk ?s), points := [], polygon := None, current_selection := None\<rparr>,
       Done)"
    using reset_image_outcomes [of ?s 1 float_image] h1 h2 h3 h4 by blast
  have c: "snd (reset_image ?s) = Done" by (simp add: b)
  have d: "working_array (fst (reset_image ?s)) = Some float_image"
    by (simp add: b working_array_def)
  have e: "selection_state (fst (reset_image ?s)) = ([], None, None)"
    by (simp add: b selection_state_def)
  show ?thesis
    using h0 a h1 h2 h3 h4 c d e by (intro conjI)
qed

subsection \<open>Adding points\<close>

text \<open>
  C7. A left click inside the axes at the pixel \<open>(x, y) = (int(xdata), int(ydata))\<close> of a
  matrix with \<open>rows\<close> rows and \<open>cols\<close> columns appends \<open>(x, y)\<close> to the point list exactly when
  \<open>0 \<le> x < cols\<close> and \<open>0 \<le> y < rows\<close>; otherwise it returns silently and the editor, matrix
  and selection included, is unchanged.
\<close>

theorem on_click_appends_in_bounds:
  assumes "data s = Some d" and "heap s d = Some a" and "shape a = (rows, cols)"
  shows "on_click True 1 xdata ydata s =
     (if 0 \<le> py_int xdata \<and> py_int xdata < int cols
         \<and> 0 \<le> py_int ydata \<and> py_int ydata < int rows
      then (s\<lparr>points := points s @ [(py_int xdata, py_int ydata)]\<rparr>,
            if plotted s then Done else Uncaught)
      else (s, Done))"
  using on_click_left [OF assms(1,2), of xdata ydata] by (simp add: assms(3))

theorem on_click_appends_in_bounds_witness:
  "data (demo_editor float_image) = Some 0
   \<and> heap (demo_editor float_image) 0 = Some float_image \<and> shape float_image = (3, 3)
   \<and> on_click True 1 1.7 2.2 (demo_editor float_image)
       = ((demo_editor float_image)\<lparr>points := demo_triangle @ [(1, 2)]\<rparr>, Done)
   \<and> on_click True 1 3.4 1 (demo_editor float_image) = (demo_editor float_image, Done)
   \<and> on_click True 1 1 (-1.5) (demo_editor float_image) = (demo_editor float_image, Done)"
proof -
  let ?s = "demo_editor float_image"
  have h1: "data ?s = Some 0" by (simp add: float_session closed_triangle_fields)
  have h2: "heap ?s 0 = Some float_image" by (simp add: float_session closed_triangle_fields)
  have h3: "shape float_image = (3, 3)" by (rule demo_images)
  have p: "plotted ?s" "points ?s = demo_triangle"
    by (simp_all add: float_session closed_triangle_fields)
  have a: "on_click True 1 1.7 2.2 ?s = (?s\<lparr>points := demo_triangle @ [(1, 2)]\<rparr>, Done)"
    using on_click_appends_in_bounds [OF h1 h2 h3, of "1.7" "2.2"] p
    by (simp add: py_int_def)
  have b: "on_click True 1 3.4 1 ?s = (?s, Done)"
    using on_click_appends_in_bounds [OF h1 h2 h3, of "3.4" 1]
    by (simp add: py_int_def)
  have c: "on_click True 1 1 (-1.5) ?s = (?s, Done)"
    using on_click_appends_in_bounds [OF h1 h2 h3, of 1 "-1.5"]
    by (simp add: py_int_def)
  show ?thesis
    using h1 h2 h3 a b c by (intro conjI)
qed

subsection \<open>Cancelling\<close>

lemma on_click_fst:
  "fst (on_click i b x y s) =
     (case grid_shape s of
        None \<Rightarrow> s
      | Some sh \<Rightarrow>
          if i \<and> b = 1 \<and> 0 \<le> py_int x \<and> py_int x < int (snd sh)
               \<and> 0 \<le> py_int y \<and> py_int y < int (fst sh)
          then s\<lparr>points := points s @ [(py_int x, py_int y)]\<rparr> else s)"
  by (simp add: on_click_def grid_shape_def Let_def split: option.splits)

lemma on_click_grid_shape: "grid_shape (fst (on_click i b x y s)) = grid_shape s"
proof (cases "grid_shape s")
  case None
  then show ?thesis by (simp add: on_click_fst)
next
  case (Some sh)
  have "grid_shape (s\<lparr>points := points s @ [(py_int x, py_int y)]\<rparr>) = grid_shape s"
    by (simp add: grid_shape_def cong: option.case_cong)
  then show ?thesis using Some by (simp add: on_click_fst)
qed

lemma on_click_selection:
  assumes "grid_shape s = grid_shape t" and "selection_state s = selection_state t"
  shows "selection_state (fst (on_click i b x y s)) = selection_state (fst (on_click i b x y t))"
proof -
  have p: "points s = points t" "polygon s = polygon t"
    "current_selection s = current_selection t"
    using assms(2) by (simp_all add: selection_state_def)
  show ?thesis
  proof (cases "grid_shape t")
    case None
    then show ?thesis using assms by (simp add: on_click_fst)
  next
    case (Some sh)
    then show ?thesis using assms(1) p by (simp add: on_click_fst selection_state_def)
  qed
qed

lemma add_points_selection:
  "grid_shape s = grid_shape t \<Longrightarrow> selection_state s = selection_state t \<Longrightarrow>
   selection_state (add_points cs s) = selection_state (add_points cs t)"
proof (induction cs arbitrary: s t)
  case Nil
  then show ?case by simp
next
  case (Cons c cs)
  obtain x y where c: "c = (x, y)" by (cases c)
  have g: "grid_shape (fst (on_click True 1 x y s)) = grid_shape (fst (on_click True 1 x y t))"
    using Cons.prems(1) by (simp only: on_click_grid_shape)
  have e: "selection_state (fst (on_click True 1 x y s))
      = selection_state (fst (on_click True 1 x y t))"
    using Cons.prems by (rule on_click_selection)
  have "selection_state (add_points cs (fst (on_click True 1 x y s)))
      = selection_state (add_points cs (fst (on_click True 1 x y t)))"
    using g e by (rule Cons.IH)
  then show ?case
    unfolding c by (simp only: add_points.simps)
qed

text \<open>
  C8. In a running editor \<open>cancel_selection\<close> returns normally whatever the selection is, and
  leaves the point list empty, no patch and no committed selection; the arrays are untouched.
  Any sequence of clicks after it gives the selection that the same clicks give on an editor
  with the same grid and an untouched, empty selection \<open>s0\<close>.
\<close>

theorem cancel_selection_gives_fresh_selection:
  assumes "plotted s" and "working_array s = Some a" and "numeric a"
    and "grid_shape s0 = grid_shape s" and "selection_state s0 = ([], None, None)"
  shows "snd (cancel_selection s) = Done
     \<and> selection_state (fst (cancel_selection s)) = ([], None, None)
     \<and> heap (fst (cancel_selection s)) = heap s \<and> data (fst (cancel_selection s)) = data s
     \<and> selection_state (add_points cs (fst (cancel_selection s)))
         = selection_state (add_points cs s0)"
proof -
  obtain s' where s': "s' = fst (cancel_selection s)" by simp
  obtain d where d: "data s = Some d" "heap s d = Some a"
    using assms(2) by (auto simp: working_array_def split: option.splits)
  have out: "snd (cancel_selection s) = Done"
    using assms(1,3) d by (simp add: cancel_selection_def refresh_display_def Let_def)
  have sel: "selection_state s' = ([], None, None)"
    by (simp add: s' cancel_selection_def selection_state_def Let_def)
  have same: "heap s' = heap s" "data s' = data s"
    by (simp_all add: s' cancel_selection_def Let_def)
  have "grid_shape s' = grid_shape s"
    by (simp add: grid_shape_def same cong: option.case_cong)
  then have g: "grid_shape s' = grid_shape s0"
    by (simp add: assms(4))
  have e: "selection_state s' = selection_state s0"
    by (simp add: sel assms(5))
  have "selection_state (add_points cs s') = selection_state (add_points cs s0)"
    using g e by (rule add_points_selection)
  with out sel same show ?thesis
    unfolding s' by (intro conjI)
qed

lemma fresh_points:
  "selection_state (add_points [(1.2, 0.5), (7, 1), (2, 2.9)] (run (Frame float_image) editor_init))
      = ([(1, 0), (2, 2)], None, None)"
proof -
  let ?s0 = "run (Frame float_image) editor_init"
  have d0: "data ?s0 = Some 0" "heap ?s0 0 = Some float_image" "points ?s0 = []"
    "polygon ?s0 = None" "current_selection ?s0 = None"
    by (simp_all add: run_frame [OF demo_images(1)])
  have c1: "fst (on_click True 1 1.2 0.5 ?s0) = ?s0\<lparr>points := [(1, 0)]\<rparr>"
    using on_click_left [OF d0(1,2), of "1.2" "0.5"]
    by (simp add: py_int_def demo_images d0(3))
  let ?s1 = "?s0\<lparr>points := [(1, 0)]\<rparr>"
  have d1: "data ?s1 = Some 0" "heap ?s1 0 = Some float_image"
    by (simp_all add: d0)
  have c2: "fst (on_click True 1 7 1 ?s1) = ?s1"
    using on_click_left [OF d1, of 7 1]
    by (simp add: demo_images)
  have c3: "fst (on_click True 1 2 2.9 ?s1) = ?s0\<lparr>points := [(1, 0), (2, 2)]\<rparr>"
    using on_click_left [OF d1, of 2 "2.9"]
    by (simp add: py_int_def demo_images)
  have "add_points [(1.2, 0.5), (7, 1), (2, 2.9)] ?s0 = ?s0\<lparr>points := [(1, 0), (2, 2)]\<rparr>"
    by (simp only: add_points.simps c1 c2 c3)
  then show ?thesis
    by (simp add: selection_state_def d0)
qed

theorem cancel_selection_gives_fresh_selection_witness:
  "plotted (demo_editor float_image)
   \<and> working_array (demo_editor float_image) = Some float_image \<and> numeric float_image
   \<and> grid_shape (run (Frame float_image) editor_init) = grid_shape (demo_editor float_image)
   \<and> selection_state (run (Frame float_image) editor_init) = ([], None, None)
   \<and> selection_state (demo_editor float_image)
       = (demo_triangle, Some demo_triangle, Some demo_triangle)
   \<and> snd (cancel_selection (demo_editor float_image)) = Done
   \<and> selection_state (fst (cancel_selection (demo_editor float_image))) = ([], None, None)
   \<and> selection_state
        (add_points [(1.2, 0.5), (7, 1), (2, 2.9)]
           (fst (cancel_selection (demo_editor float_image))))
       = ([(1, 0), (2, 2)], None, None)"
proof -
  let ?s = "demo_editor float_image"
  let ?fresh = "run (Frame float_image) editor_init"
  let ?cs = "[(1.2, 0.5), (7, 1), (2, 2.9)] :: (real \<times> real) list"
  have h1: "plotted ?s" by (simp add: float_session closed_triangle_fields)
  have h2: "working_array ?s = Some float_image"
    by (simp add: working_array_def float_session closed_triangle_fields)
  have h3: "numeric float_image" by (rule demo_images)
  have g: "grid_shape ?s = Some (3, 3)"
    by (simp add: grid_shape_def float_session closed_triangle_fields demo_images)
  have g0: "grid_shape ?fresh = Some (3, 3)"
    by (simp add: grid_shape_def run_frame [OF demo_images(1)] demo_images)
  have h4: "grid_shape ?fresh = grid_shape ?s" by (simp only: g g0)
  have h5: "selection_state ?fresh = ([], None, None)"
    by (simp add: selection_state_def run_frame [OF demo_images(1)])
  have before: "selection_state ?s = (demo_triangle, Some demo_triangle, Some demo_triangle)"
    by (simp add: selection_state_def float_session closed_triangle_fields)
  note inst = cancel_selection_gives_fresh_selection [OF h1 h2 h3 h4 h5, of ?cs]
  have a: "snd (cancel_selection ?s) = Done"
    using inst by (rule conjunct1)
  have b: "selection_state (fst (cancel_selection ?s)) = ([], None, None)"
    using inst by (elim conjE)
  have "selection_state (add_points ?cs (fst (cancel_selection ?s)))
      = selection_state (add_points ?cs ?fresh)"
    using inst by (elim conjE)
  then have c: "selection_state (add_points ?cs (fst (cancel_selection ?s)))
      = ([(1, 0), (2, 2)], None, None)"
    using fresh_points by (rule trans)
  show ?thesis
    using h1 h2 h3 h4 h5 before a b c by (intro conjI)
qed

subsection \<open>The snapshot survives the session\<close>

lemma snapshot_inv_fields:
  "heap t = heap s \<Longrightarrow> brk t = brk s \<Longrightarrow> data t = data s \<Longrightarrow>
   original_data t = original_data s \<Longrightarrow> plotted t = plotted s \<Longrightarrow>
   snapshot_inv og a t = snapshot_inv og a s"
  by (simp add: snapshot_inv_def cong: option.case_cong)

lemma snapshot_invD:
  assumes "snapshot_inv og a s"
  shows "plotted s" and "numeric a" and "original_data s = Some og" and "heap s og = Some a"
    and "og < brk s"
    and "\<exists>d b. data s = Some d \<and> d \<noteq> og \<and> d < brk s \<and> heap s d = Some b \<and> numeric b"
  using assms by (auto simp: snapshot_inv_def split: option.splits)

lemma on_click_keeps:
  "heap (fst (on_click i b x y s)) = heap s" "brk (fst (on_click i b x y s)) = brk s"
  "data (fst (on_click i b x y s)) = data s"
  "original_data (fst (on_click i b x y s)) = original_data s"
  "plotted (fst (on_click i b x y s)) = plotted s"
  by (simp_all add: on_click_fst split: option.splits)

lemma close_region_keeps:
  "heap (fst (close_region s)) = heap s" "brk (fst (close_region s)) = brk s"
  "data (fst (close_region s)) = data s"
  "original_data (fst (close_region s)) = original_data s"
  "plotted (fst (close_region s)) = plotted s"
  by (simp_all add: close_region_def)

lemma cancel_selection_keeps:
  "heap (fst (cancel_selection s)) = heap s" "brk (fst (cancel_selection s)) = brk s"
  "data (fst (cancel_selection s)) = data s"
  "original_data (fst (cancel_selection s)) = original_data s"
  "plotted (fst (cancel_selection s)) = plotted s"
  by (simp_all add: cancel_selection_def Let_def)

lemma on_key_press_keeps:
  "heap (fst (on_key_press k s)) = heap s" "brk (fst (on_key_press k s)) = brk s"
  "data (fst (on_key_press k s)) = data s"
  "original_data (fst (on_key_press k s)) = original_data s"
  "plotted (fst (on_key_press k s)) = plotted s"
  by (simp_all add: on_key_press_def close_region_keeps cancel_selection_keeps)

lemma save_csv_keeps: "fst (save_csv r s) = s"
  by (cases r) (simp_all add: save_csv_def)

lemma reset_image_running:
  assumes "snapshot_inv og a s"
  shows "reset_image s =
     (s\<lparr>heap := (heap s)(brk s \<mapsto> a), brk := Suc (brk s), data := Some (brk s),
         points := [], polygon := None, current_selection := None\<rparr>, Done)"
  using snapshot_invD(1-4) [OF assms]
  by (simp add: reset_image_def cancel_selection_def refresh_display_def Let_def)

lemma reset_image_inv:
  assumes "snapshot_inv og a s"
  shows "snapshot_inv og a (fst (reset_image s))"
proof -
  have "og \<noteq> brk s" using snapshot_invD(5) [OF assms] by simp
  then show ?thesis
    using snapshot_invD(1-5) [OF assms]
    by (simp add: reset_image_running [OF assms] snapshot_inv_def)
qed

lemma numeric_masked_assign: "numeric b \<Longrightarrow> numeric (masked_assign b msk v)"
  by (cases b) simp_all

lemma fill_region_running:
  assumes "snapshot_inv og a s"
  shows "fst (fill_region c es s) = s
     \<or> (\<exists>d b sel v. data s = Some d \<and> d \<noteq> og \<and> heap s d = Some b \<and> numeric b
           \<and> askfloat 0 100 es = Some v
           \<and> fst (fill_region c es s) =
               s\<lparr>heap := (heap s)(d \<mapsto> masked_assign b (create_polygon_mask c sel b) v),
                  points := [], polygon := None, current_selection := None\<rparr>)"
proof -
  from snapshot_invD(6) [OF assms] obtain d b where
    d: "data s = Some d" "d \<noteq> og" "heap s d = Some b" "numeric b"
    by blast
  have p: "plotted s" by (rule snapshot_invD(1) [OF assms])
  show ?thesis
  proof (cases "current_selection s")
    case None
    then show ?thesis by (simp add: fill_region_def)
  next
    case (Some sel)
    show ?thesis
    proof (cases "sel = [] \<or> \<not> np_any (create_polygon_mask c sel b)")
      case True
      then show ?thesis using Some d by (auto simp: fill_region_def)
    next
      case False
      show ?thesis
      proof (cases "askfloat 0 100 es")
        case None
        then show ?thesis using Some d False by (simp add: fill_region_def)
      next
        case (Some v)
        have "fill_region c es s =
            (s\<lparr>heap := (heap s)(d \<mapsto> masked_assign b (create_polygon_mask c sel b) v),
                points := [], polygon := None, current_selection := None\<rparr>,
             Filled v (np_sum (create_polygon_mask c sel b)))"
          using \<open>current_selection s = Some sel\<close> False d p Some
          by (intro fill_region_fills) simp_all
        then show ?thesis using d Some by auto
      qed
    qed
  qed
qed

lemma fill_region_inv:
  assumes "snapshot_inv og a s"
  shows "snapshot_inv og a (fst (fill_region c es s))"
proof -
  from fill_region_running [OF assms, of c es]
  consider "fst (fill_region c es s) = s"
    | d b sel v where "data s = Some d" "d \<noteq> og" "heap s d = Some b" "numeric b"
        "fst (fill_region c es s) =
           s\<lparr>heap := (heap s)(d \<mapsto> masked_assign b (create_polygon_mask c sel b) v),
              points := [], polygon := None, current_selection := None\<rparr>"
    by blast
  then show ?thesis
  proof cases
    case 1
    then show ?thesis using assms by simp
  next
    case 2
    show ?thesis
      unfolding 2(5)
      using assms 2(1-4) numeric_masked_assign [OF 2(4)]
      by (simp add: snapshot_inv_def)
  qed
qed

lemma handle_inv:
  assumes "snapshot_inv og a s" and "\<not> is_load e"
  shows "snapshot_inv og a (fst (handle c e s))"
proof (cases e)
  case (Click i b x y)
  then show ?thesis
    using assms(1) by (simp add: snapshot_inv_fields [OF on_click_keeps])
next
  case (Key k)
  then show ?thesis
    using assms(1) by (simp add: snapshot_inv_fields [OF on_key_press_keeps])
next
  case BtnReset
  then show ?thesis using reset_image_inv [OF assms(1)] by simp
next
  case (BtnFill es)
  then show ?thesis using fill_region_inv [OF assms(1)] by simp
next
  case (BtnSave r)
  then show ?thesis using assms(1) by (simp add: save_csv_keeps)
next
  case (BtnLoad r)
  then show ?thesis using assms(2) by simp
next
  case BtnUndo
  then show ?thesis using reset_image_inv [OF assms(1)] by (simp add: undo_last_action_def)
qed

lemma run_events_inv:
  "snapshot_inv og a s \<Longrightarrow> \<forall>e \<in> set es. \<not> is_load e \<Longrightarrow>
   snapshot_inv og a (run_events c es s)"
proof (induction es arbitrary: s)
  case Nil
  then show ?case by simp
next
  case (Cons e es)
  have "snapshot_inv og a (fst (handle c e s))"
    using Cons.prems by (intro handle_inv) simp_all
  then have "snapshot_inv og a (run_events c es (fst (handle c e s)))"
    using Cons.prems(2) by (intro Cons.IH) simp_all
  then show ?case by simp
qed

lemma run_inv: "numeric a \<Longrightarrow> snapshot_inv 1 a (run (Frame a) editor_init)"
  by (simp add: run_frame snapshot_inv_def)

text \<open>
  C2. Load a numeric matrix \<open>a\<close> with \<open>run\<close> and let any finite sequence of events follow that
  loads no other file: clicks, Enter and Escape, fills, resets, undos, saves. The snapshot is
  still the array stored at address 1 and still holds \<open>a\<close>, so no fill, cancel or reset has
  written to it. Reset then succeeds and the working array is a copy of \<open>a\<close>, equal to it cell
  by cell and stored elsewhere than the snapshot, which is untouched by the reset as well.
\<close>

theorem reset_restores_loaded_matrix:
  assumes "numeric a" and "\<forall>e \<in> set es. \<not> is_load e"
  shows "original_data (session contains a es) = Some 1
     \<and> heap (session contains a es) 1 = Some a
     \<and> snd (reset_image (session contains a es)) = Done
     \<and> working_array (fst (reset_image (session contains a es))) = Some a
     \<and> data (fst (reset_image (session contains a es))) \<noteq> Some 1
     \<and> original_data (fst (reset_image (session contains a es))) = Some 1
     \<and> heap (fst (reset_image (session contains a es))) 1 = Some a"
proof -
  obtain s where s: "s = session contains a es" by simp
  have inv: "snapshot_inv 1 a s"
    unfolding s session_def using assms by (intro run_events_inv run_inv)
  note r = reset_image_running [OF inv]
  have inv': "snapshot_inv 1 a (fst (reset_image s))"
    by (rule reset_image_inv [OF inv])
  have ne: "1 \<noteq> brk s" using snapshot_invD(5) [OF inv] by simp
  have "original_data s = Some 1" "heap s 1 = Some a"
    by (rule snapshot_invD [OF inv])+
  moreover have "snd (reset_image s) = Done" by (simp add: r)
  moreover have "working_array (fst (reset_image s)) = Some a"
    by (simp add: r working_array_def)
  moreover have "data (fst (reset_image s)) \<noteq> Some 1"
    using ne by (simp add: r)
  moreover have "original_data (fst (reset_image s)) = Some 1"
    "heap (fst (reset_image s)) 1 = Some a"
    by (rule snapshot_invD [OF inv'])+
  ultimately show ?thesis
    unfolding s by (intro conjI)
qed

lemma run_events_append:
  "run_events c (xs @ ys) s = run_events c ys (run_events c xs s)"
  by (induction xs arbitrary: s) simp_all

lemma filled_float_session:
  "working_array (session demo_contains float_image (triangle_clicks @ [BtnFill [Typed 42.5]]))
     = Some (Float64 [[20.5, 21, 22], [42.5, 42.5, 25], [42.5, 27, 28]])"
proof -
  let ?s = "closed_triangle_on float_image"
  let ?msk = "[[False, False, False], [True, True, False], [True, False, False]]"
  have sess: "session demo_contains float_image (triangle_clicks @ [BtnFill [Typed 42.5]])
      = fst (fill_region demo_contains [Typed 42.5] (demo_editor float_image))"
    by (simp add: session_def run_events_append demo_editor_def)
  have msk: "create_polygon_mask demo_contains demo_triangle float_image = ?msk"
    by (rule demo_mask) (rule demo_images)
  have any: "np_any ?msk" by (simp add: np_any_def)
  have ask: "askfloat 0 100 [Typed 42.5] = Some 42.5" by simp
  have run: "fill_region demo_contains [Typed 42.5] ?s =
     (?s\<lparr>heap := (heap ?s)(0 \<mapsto> masked_assign float_image ?msk 42.5), points := [],
          polygon := None, current_selection := None\<rparr>, Filled 42.5 (np_sum ?msk))"
    by (rule fill_region_fills [OF closed_triangle_fields(9) demo_triangle_nonempty
          closed_triangle_fields(1,2) demo_images(1) closed_triangle_fields(5) msk any ask])
  have cells: "masked_assign float_image ?msk 42.5
      = Float64 [[20.5, 21, 22], [42.5, 42.5, 25], [42.5, 27, 28]]"
    by (simp add: float_image_def assign_def)
  show ?thesis
    unfolding sess float_session run cells
    by (simp add: working_array_def closed_triangle_fields)
qed

lemma demo_events_no_load: "\<forall>e \<in> set (triangle_clicks @ [BtnFill [Typed 42.5]]). \<not> is_load e"
  by (simp add: triangle_clicks_def)

theorem reset_restores_loaded_matrix_witness:
  "numeric float_image
   \<and> list_all (\<lambda>e. \<not> is_load e) (triangle_clicks @ [BtnFill [Typed 42.5]])
   \<and> working_array (session demo_contains float_image (triangle_clicks @ [BtnFill [Typed 42.5]]))
       = Some (Float64 [[20.5, 21, 22], [42.5, 42.5, 25], [42.5, 27, 28]])
   \<and> heap (session demo_contains float_image (triangle_clicks @ [BtnFill [Typed 42.5]])) 1
       = Some float_image
   \<and> working_array (fst (reset_image
         (session demo_contains float_image (triangle_clicks @ [BtnFill [Typed 42.5]]))))
       = Some float_image"
proof -
  note inst = reset_restores_loaded_matrix [OF demo_images(1) demo_events_no_load,
      of demo_contains]
  have a: "heap (session demo_contains float_image (triangle_clicks @ [BtnFill [Typed 42.5]])) 1
       = Some float_image"
    using inst by (elim conjE)
  have b: "working_array (fst (reset_image
         (session demo_contains float_image (triangle_clicks @ [BtnFill [Typed 42.5]]))))
       = Some float_image"
    using inst by (elim conjE)
  have n: "list_all (\<lambda>e. \<not> is_load e) (triangle_clicks @ [BtnFill [Typed 42.5]])"
    using demo_events_no_load by (simp only: list_all_iff)
  show ?thesis
    using demo_images(1) n filled_float_session a b by (intro conjI)
qed

subsection \<open>The range of the filled values\<close>

lemma askfloat_bounds: "askfloat lo hi es = Some v \<Longrightarrow> lo \<le> v \<and> v \<le> hi"
  by (induction lo hi es rule: askfloat.induct) (auto split: if_splits)

lemma py_int_range: "0 \<le> v \<Longrightarrow> v \<le> 100 \<Longrightarrow> 0 \<le> py_int v \<and> py_int v \<le> 100"
  by (simp add: py_int_def floor_le_iff)

lemma rectangular_nth: "rectangular m \<Longrightarrow> y < length m \<Longrightarrow> length (m ! y) = shape1 m"
  by (simp add: rectangular_def)

lemma shape1_eq:
  assumes "length m' = length m" "\<forall>y<length m. length (m' ! y) = length (m ! y)"
  shows "shape1 m' = shape1 m"
proof (cases m)
  case Nil
  with assms show ?thesis by (simp add: shape1_def)
next
  case (Cons r rs)
  with assms(1) obtain r' rs' where m': "m' = r' # rs'" by (cases m') auto
  from assms(2) Cons m' have "length r' = length r" by auto
  with Cons m' show ?thesis by (simp add: shape1_def)
qed

lemma row_assign:
  fixes row row0 :: "'a::linordered_idom list"
  assumes "list_all2 (\<lambda>c c0. c = c0 \<or> (0 \<le> c \<and> c \<le> 100)) row row0"
    and "0 \<le> v" and "v \<le> 100" and "length bs = length row"
  shows "list_all2 (\<lambda>c c0. c = c0 \<or> (0 \<le> c \<and> c \<le> 100))
           (map (\<lambda>(t, b). if b then v else t) (zip row bs)) row0"
  using assms by (auto simp: list_all2_conv_all_nth)

lemma cells_assign:
  fixes md m :: "'a::linordered_idom list list"
  assumes rel: "cells_original_or_prompted md m" and rect: "rectangular m"
    and v: "0 \<le> v" "v \<le> 100"
    and msk: "msk = map (\<lambda>y. map (P y) [0..<shape1 md]) [0..<shape0 md]"
  shows "cells_original_or_prompted (assign md msk v) m"
proof -
  let ?R = "\<lambda>(c::'a) c0. c = c0 \<or> (0 \<le> c \<and> c \<le> 100)"
  have len: "length md = length m"
    using rel by (simp add: cells_original_or_prompted_def list_all2_lengthD)
  have rows: "list_all2 ?R (md ! i) (m ! i)" if "i < length m" for i
    using rel that by (simp add: cells_original_or_prompted_def list_all2_conv_all_nth)
  have rowlen: "length (md ! i) = length (m ! i)" if "i < length m" for i
    using rows [OF that] by (rule list_all2_lengthD)
  have s1: "shape1 md = shape1 m"
    using shape1_eq [OF len] rowlen by blast
  have full: "length (md ! i) = shape1 md" if "i < length m" for i
    using rowlen [OF that] rectangular_nth [OF rect that] s1 by simp
  have lenA: "length (assign md msk v) = length m"
    by (simp add: assign_def msk shape0_def len)
  have rowA: "list_all2 ?R (assign md msk v ! i) (m ! i)" if "i < length m" for i
  proof -
    have "assign md msk v ! i
        = map (\<lambda>(t, b). if b then v else t) (zip (md ! i) (map (P i) [0..<shape1 md]))"
      using that by (simp add: assign_def msk shape0_def len)
    moreover have "length (map (P i) [0..<shape1 md]) = length (md ! i)"
      using full [OF that] by simp
    ultimately show ?thesis
      using row_assign [OF rows [OF that] v] by simp
  qed
  show ?thesis
    unfolding cells_original_or_prompted_def
    using lenA rowA by (simp add: list_all2_conv_all_nth)
qed

lemma cells_refl: "cells_original_or_prompted m m"
  by (simp add: cells_original_or_prompted_def list_all2_refl)

lemma original_or_prompted_refl: "numeric a \<Longrightarrow> original_or_prompted a a"
  by (cases a) (simp_all add: cells_refl)

lemma original_or_prompted_fill:
  assumes "original_or_prompted b a" and "rectangular_array a" and "0 \<le> v" and "v \<le> 100"
  shows "original_or_prompted (masked_assign b (create_polygon_mask c sel b) v) a"
proof (cases b)
  case (Int64 md)
  with assms(1) obtain m where a: "a = Int64 m" by (cases a) simp_all
  have "cells_original_or_prompted (assign md (create_polygon_mask c sel b) (py_int v)) m"
    using assms py_int_range [OF assms(3,4)] Int64 a
    by (intro cells_assign [where P = "\<lambda>y x. c sel (int x, int y)"])
       (simp_all add: create_polygon_mask_def)
  then show ?thesis using Int64 a by simp
next
  case (Float64 md)
  with assms(1) obtain m where a: "a = Float64 m" by (cases a) simp_all
  have "cells_original_or_prompted (assign md (create_polygon_mask c sel b) v) m"
    using assms Float64 a
    by (intro cells_assign [where P = "\<lambda>y x. c sel (int x, int y)"])
       (simp_all add: create_polygon_mask_def)
  then show ?thesis using Float64 a by simp
next
  case (Object md)
  with assms(1) show ?thesis by simp
qed

lemma working_array_fields:
  "heap t = heap s \<Longrightarrow> data t = data s \<Longrightarrow> working_array t = working_array s"
  by (simp add: working_array_def cong: option.case_cong)

lemma range_inv_fields:
  assumes "heap t = heap s" and "brk t = brk s" and "data t = data s"
    and "original_data t = original_data s" and "plotted t = plotted s"
  shows "range_inv og a t = range_inv og a s"
proof -
  have "snapshot_inv og a t = snapshot_inv og a s"
    using assms by (rule snapshot_inv_fields)
  moreover have "working_array t = working_array s"
    using assms(1,3) by (rule working_array_fields)
  ultimately show ?thesis by (simp add: range_inv_def)
qed

lemma range_invD:
  assumes "range_inv og a s"
  shows "snapshot_inv og a s"
    and "\<exists>b. working_array s = Some b \<and> original_or_prompted b a"
  using assms by (auto simp: range_inv_def split: option.splits)

lemma range_invI:
  "snapshot_inv og a s \<Longrightarrow> working_array s = Some b \<Longrightarrow> original_or_prompted b a \<Longrightarrow>
   range_inv og a s"
  by (simp add: range_inv_def)

lemma reset_image_range:
  assumes "range_inv og a s"
  shows "range_inv og a (fst (reset_image s))"
proof -
  note inv = range_invD(1) [OF assms]
  have "working_array (fst (reset_image s)) = Some a"
    by (simp add: reset_image_running [OF inv] working_array_def)
  moreover have "original_or_prompted a a"
    using snapshot_invD(2) [OF inv] by (rule original_or_prompted_refl)
  ultimately show ?thesis
    using reset_image_inv [OF inv] by (intro range_invI)
qed

lemma fill_region_range:
  assumes "range_inv og a s" and "rectangular_array a"
  shows "range_inv og a (fst (fill_region c es s))"
proof -
  note inv = range_invD(1) [OF assms(1)]
  from fill_region_running [OF inv, of c es]
  consider "fst (fill_region c es s) = s"
    | d b sel v where "data s = Some d" "heap s d = Some b" "askfloat 0 100 es = Some v"
        "fst (fill_region c es s) =
           s\<lparr>heap := (heap s)(d \<mapsto> masked_assign b (create_polygon_mask c sel b) v),
              points := [], polygon := None, current_selection := None\<rparr>"
    by blast
  then show ?thesis
  proof cases
    case 1
    then show ?thesis using assms(1) by simp
  next
    case 2
    have "working_array s = Some b"
      using 2(1,2) by (simp add: working_array_def)
    then have rel: "original_or_prompted b a"
      using range_invD(2) [OF assms(1)] by simp
    have v: "0 \<le> v" "v \<le> 100"
      using askfloat_bounds [OF 2(3)] by simp_all
    have "original_or_prompted (masked_assign b (create_polygon_mask c sel b) v) a"
      using rel assms(2) v by (rule original_or_prompted_fill)
    moreover have "working_array (fst (fill_region c es s))
        = Some (masked_assign b (create_polygon_mask c sel b) v)"
      unfolding 2(4) using 2(1) by (simp add: working_array_def)
    ultimately show ?thesis
      using fill_region_inv [OF inv, of c es] by (intro range_invI)
  qed
qed

lemma handle_range:
  assumes "range_inv og a s" and "rectangular_array a" and "\<not> is_load e"
  shows "range_inv og a (fst (handle c e s))"
proof (cases e)
  case (Click i b x y)
  then show ?thesis
    using assms(1) by (simp add: range_inv_fields [OF on_click_keeps])
next
  case (Key k)
  then show ?thesis
    using assms(1) by (simp add: range_inv_fields [OF on_key_press_keeps])
next
  case BtnReset
  then show ?thesis using reset_image_range [OF assms(1)] by simp
next
  case (BtnFill es)
  then show ?thesis using fill_region_range [OF assms(1,2)] by simp
next
  case (BtnSave r)
  then show ?thesis using assms(1) by (simp add: save_csv_keeps)
next
  case (BtnLoad r)
  then show ?thesis using assms(3) by simp
next
  case BtnUndo
  then show ?thesis using reset_image_range [OF assms(1)] by (simp add: undo_last_action_def)
qed

lemma run_events_range:
  "range_inv og a s \<Longrightarrow> rectangular_array a \<Longrightarrow> \<forall>e \<in> set es. \<not> is_load e \<Longrightarrow>
   range_inv og a (run_events c es s)"
proof (induction es arbitrary: s)
  case Nil
  then show ?case by simp
next
  case (Cons e es)
  have "range_inv og a (fst (handle c e s))"
    using Cons.prems by (intro handle_range) simp_all
  then have "range_inv og a (run_events c es (fst (handle c e s)))"
    using Cons.prems(2,3) by (intro Cons.IH) simp_all
  then show ?case by simp
qed

lemma run_range:
  assumes "numeric a"
  shows "range_inv 1 a (run (Frame a) editor_init)"
proof -
  have "working_array (run (Frame a) editor_init) = Some a"
    by (simp add: run_frame [OF assms] working_array_def)
  then show ?thesis
    using run_inv [OF assms] original_or_prompted_refl [OF assms] by (intro range_invI)
qed

lemma fill_region_Filled:
  assumes "fill_region c es s = (s', Filled v n)"
  shows "askfloat 0 100 es = Some v"
proof (cases "current_selection s")
  case None
  then show ?thesis using assms by (simp add: fill_region_def)
next
  case sel: (Some sel)
  show ?thesis
  proof (cases "data s")
    case None
    then show ?thesis using assms sel by (simp add: fill_region_def split: if_splits)
  next
    case d: (Some d)
    show ?thesis
    proof (cases "heap s d")
      case None
      then show ?thesis using assms sel d by (simp add: fill_region_def split: if_splits)
    next
      case b: (Some b)
      show ?thesis
      proof (cases "askfloat 0 100 es")
        case None
        then show ?thesis
          using assms sel d b by (simp add: fill_region_def Let_def split: if_splits)
      next
        case (Some w)
        then show ?thesis
          using assms sel d b
          by (simp add: fill_region_def Let_def cancel_selection_def split: if_splits)
      qed
    qed
  qed
qed

text \<open>
  C10. A fill that succeeds reports a value between 0 and 100, the only values the dialog
  returns. So in a session on a numeric, rectangular matrix \<open>a\<close>, after any finite sequence
  of events that loads no other file, the working array has the shape of \<open>a\<close> and every
  pixel holds its loaded value or a value between 0 and 100 (the value typed, truncated when
  the array is int64).
\<close>

theorem fills_stay_in_prompt_range:
  assumes "numeric a" and "rectangular_array a" and "\<forall>e \<in> set es. \<not> is_load e"
  shows "(\<forall>s entries s' v n.
            fill_region contains entries s = (s', Filled v n) \<longrightarrow> 0 \<le> v \<and> v \<le> 100)
     \<and> (\<exists>b. working_array (session contains a es) = Some b \<and> original_or_prompted b a)"
proof -
  have "range_inv 1 a (session contains a es)"
    unfolding session_def using assms by (intro run_events_range run_range)
  then have "\<exists>b. working_array (session contains a es) = Some b \<and> original_or_prompted b a"
    by (rule range_invD)
  moreover have "0 \<le> v \<and> v \<le> 100"
    if "fill_region contains entries s = (s', Filled v n)" for s entries s' v n
    using askfloat_bounds [OF fill_region_Filled [OF that]] .
  ultimately show ?thesis by blast
qed

theorem fills_stay_in_prompt_range_witness:
  "numeric float_image \<and> rectangular_array float_image
   \<and> list_all (\<lambda>e. \<not> is_load e) (triangle_clicks @ [BtnFill [Typed 42.5]])
   \<and> working_array (session demo_contains float_image (triangle_clicks @ [BtnFill [Typed 42.5]]))
       = Some (Float64 [[20.5, 21, 22], [42.5, 42.5, 25], [42.5, 27, 28]])
   \<and> original_or_prompted (Float64 [[20.5, 21, 22], [42.5, 42.5, 25], [42.5, 27, 28]])
        float_image"
proof -
  have r: "rectangular_array float_image"
    by (simp add: float_image_def rectangular_def shape1_def)
  from fills_stay_in_prompt_range [OF demo_images(1) r demo_events_no_load, of demo_contains]
  obtain b where b: "working_array
        (session demo_contains float_image (triangle_clicks @ [BtnFill [Typed 42.5]])) = Some b"
      "original_or_prompted b float_image"
    by blast
  from b(1) have "b = Float64 [[20.5, 21, 22], [42.5, 42.5, 25], [42.5, 27, 28]]"
    unfolding filled_float_session by simp
  with b(2) have "original_or_prompted
      (Float64 [[20.5, 21, 22], [42.5, 42.5, 25], [42.5, 27, 28]]) float_image"
    by simp
  moreover have "list_all (\<lambda>e. \<not> is_load e) (triangle_clicks @ [BtnFill [Typed 42.5]])"
    using demo_events_no_load by (simp only: list_all_iff)
  ultimately show ?thesis
    using demo_images(1) r filled_float_session by (intro conjI)
qed

subsection \<open>Filling a float64 image\<close>

lemma assign_shape:
  assumes "rectangular m" and "msk = map (\<lambda>y. map (P y) [0..<shape1 m]) [0..<shape0 m]"
  shows "length (assign m msk v) = length m"
    and "y < length m \<Longrightarrow> length (assign m msk v ! y) = length (m ! y)"
    and "y < length m \<Longrightarrow> x < shape1 m \<Longrightarrow>
         assign m msk v ! y ! x = (if msk ! y ! x then v else m ! y ! x)"
  using assms
  by (simp_all add: assign_def shape0_def rectangular_nth)

text \<open>
  On a float64 array the store keeps the value: every pixel under the mask equals the value
  returned by the dialog, every other pixel keeps its own, the shape is kept and the count
  reported is \<open>np.sum(mask)\<close>. The truncation seen in the int64 session does not occur.
\<close>

lemma fill_region_on_float64:
  assumes "current_selection s = Some sel" and "sel \<noteq> []"
    and "data s = Some d" and "heap s d = Some (Float64 m)" and "rectangular m"
    and "plotted s"
    and "create_polygon_mask contains sel (Float64 m) = msk" and "np_any msk"
    and "askfloat 0 100 entries = Some v"
  shows "\<exists>m'. snd (fill_region contains entries s) = Filled v (np_sum msk)
          \<and> working_array (fst (fill_region contains entries s)) = Some (Float64 m')
          \<and> shape0 m' = shape0 m \<and> shape1 m' = shape1 m
          \<and> (\<forall>y<shape0 m. \<forall>x<shape1 m. m' ! y ! x = (if msk ! y ! x then v else m ! y ! x))"
proof -
  let ?m' = "assign m msk v"
  have msk: "msk = map (\<lambda>y. map (\<lambda>x. contains sel (int x, int y)) [0..<shape1 m]) [0..<shape0 m]"
    using assms(7) by (simp add: create_polygon_mask_def)
  have run: "fill_region contains entries s =
     (s\<lparr>heap := (heap s)(d \<mapsto> masked_assign (Float64 m) msk v), points := [],
         polygon := None, current_selection := None\<rparr>, Filled v (np_sum msk))"
    using assms(1-4) _ assms(6-9) by (rule fill_region_fills) simp
  have len: "length ?m' = length m"
    using assign_shape(1) [OF assms(5) msk] .
  have row: "\<forall>y<length m. length (?m' ! y) = length (m ! y)"
    using assign_shape(2) [OF assms(5) msk] by blast
  have s1: "shape1 ?m' = shape1 m"
    using shape1_eq [OF len row] .
  have cells: "\<forall>y<shape0 m. \<forall>x<shape1 m. ?m' ! y ! x = (if msk ! y ! x then v else m ! y ! x)"
    using assign_shape(3) [OF assms(5) msk] by (simp add: shape0_def)
  have "working_array (fst (fill_region contains entries s)) = Some (Float64 ?m')"
    unfolding run using assms(3) by (simp add: working_array_def)
  moreover have "snd (fill_region contains entries s) = Filled v (np_sum msk)"
    unfolding run by simp
  moreover have "shape0 ?m' = shape0 m" using len by (simp add: shape0_def)
  ultimately show ?thesis
    using s1 cells by blast
qed

end
